theory Spec2Isabelle
  imports Complex_Main "HOL-Library.Word"
begin

unbundle bit_operations_syntax

section \<open>JavaScript numbers used by the generator\<close>

text \<open>
  The generator state of \<^verbatim>\<open>SeededRandom\<close> is a JavaScript number holding an integer.
  The bitwise operators first convert their operands with ToInt32 (reduction modulo
  \<open>2 ^ 32\<close> into the signed range) and deliver a signed 32-bit result. The wrap-around is
  written out on \<open>int\<close>. Fractions are kept exact as \<open>rat\<close>: every value \<^verbatim>\<open>next()\<close> yields
  is a multiple of one thousandth.
\<close>

definition ToInt32 :: "int \<Rightarrow> int" where
  "ToInt32 x = (x + 2 ^ 31) mod 2 ^ 32 - 2 ^ 31"

text \<open>\<^verbatim>\<open>a << n\<close>: the shift count is taken modulo 32, the result is wrapped to 32 bits.\<close>

definition js_shl :: "int \<Rightarrow> nat \<Rightarrow> int" where
  "js_shl a n = ToInt32 (ToInt32 a * 2 ^ (n mod 32))"

text \<open>\<^verbatim>\<open>a >> n\<close>: the sign-propagating right shift.\<close>

definition js_sar :: "int \<Rightarrow> nat \<Rightarrow> int" where
  "js_sar a n = ToInt32 a div 2 ^ (n mod 32)"

text \<open>\<^verbatim>\<open>a ^ b\<close>.\<close>

definition js_xor :: "int \<Rightarrow> int \<Rightarrow> int" where
  "js_xor a b = ToInt32 a XOR ToInt32 b"

text \<open>\<^verbatim>\<open>a % b\<close> on integers with \<open>b \<noteq> 0\<close>: the remainder takes the sign of the dividend.\<close>

definition js_rem :: "int \<Rightarrow> int \<Rightarrow> int" where
  "js_rem a b = sgn a * (\<bar>a\<bar> mod \<bar>b\<bar>)"

section \<open>The class SeededRandom\<close>

record SeededRandom =
  seed :: int

definition SeededRandom_new :: "int \<Rightarrow> SeededRandom" where
  "SeededRandom_new s = \<lparr>seed = s\<rparr>"

text \<open>\<^verbatim>\<open>next()\<close>: returns the value and the generator with its updated state.\<close>

definition SeededRandom_next :: "SeededRandom \<Rightarrow> rat \<times> SeededRandom" where
  "SeededRandom_next g =
     (let s1 = js_xor (seed g) (js_shl (seed g) 13);
          s2 = js_xor s1 (js_sar s1 17);
          s3 = js_xor s2 (js_shl s2 5)
      in (of_int \<bar>js_rem s3 1000\<bar> / 1000, g\<lparr>seed := s3\<rparr>))"


text \<open>
  The xorshift transform in the words of the specification, on 32-bit machine words:
  \<^verbatim>\<open>state ^= state << 13; state ^= state >> 17; state ^= state << 5\<close> with a signed
  right shift.
\<close>

definition xorshift32 :: "32 word \<Rightarrow> 32 word" where
  "xorshift32 x =
     (let a = x XOR push_bit 13 x;
          b = a XOR signed_drop_bit 17 a
      in b XOR push_bit 5 b)"

section \<open>SHA-256 and its hexadecimal rendering\<close>

text \<open>
  \<^verbatim>\<open>generateSeed\<close> calls \<^verbatim>\<open>createHash("sha256").update(input).digest("hex")\<close> of the
  Node.js runtime. The digest is SHA-256 as laid down in FIPS 180-4, over the UTF-8
  bytes of the input; a \<open>string\<close> here is the list of those bytes.
\<close>

text \<open>The round constants, eight to a row as the standard prints them.\<close>

definition sha256_K :: "32 word list" where
  "sha256_K = concat
    [[0x428a2f98, 0x71374491, 0xb5c0fbcf, 0xe9b5dba5, 0x3956c25b, 0x59f111f1, 0x923f82a4, 0xab1c5ed5],
     [0xd807aa98, 0x12835b01, 0x243185be, 0x550c7dc3, 0x72be5d74, 0x80deb1fe, 0x9bdc06a7, 0xc19bf174],
     [0xe49b69c1, 0xefbe4786, 0x0fc19dc6, 0x240ca1cc, 0x2de92c6f, 0x4a7484aa, 0x5cb0a9dc, 0x76f988da],
     [0x983e5152, 0xa831c66d, 0xb00327c8, 0xbf597fc7, 0xc6e00bf3, 0xd5a79147, 0x06ca6351, 0x14292967],
     [0x27b70a85, 0x2e1b2138, 0x4d2c6dfc, 0x53380d13, 0x650a7354, 0x766a0abb, 0x81c2c92e, 0x92722c85],
     [0xa2bfe8a1, 0xa81a664b, 0xc24b8b70, 0xc76c51a3, 0xd192e819, 0xd6990624, 0xf40e3585, 0x106aa070],
     [0x19a4c116, 0x1e376c08, 0x2748774c, 0x34b0bcb5, 0x391c0cb3, 0x4ed8aa4a, 0x5b9cca4f, 0x682e6ff3],
     [0x748f82ee, 0x78a5636f, 0x84c87814, 0x8cc70208, 0x90befffa, 0xa4506ceb, 0xbef9a3f7, 0xc67178f2]]"

definition sha256_H0 :: "32 word list" where
  "sha256_H0 =
    [0x6a09e667, 0xbb67ae85, 0x3c6ef372, 0xa54ff53a, 0x510e527f, 0x9b05688c, 0x1f83d9ab, 0x5be0cd19]"

definition rotr :: "nat \<Rightarrow> 32 word \<Rightarrow> 32 word" where
  "rotr n x = drop_bit n x OR push_bit (32 - n) x"

definition Ch :: "32 word \<Rightarrow> 32 word \<Rightarrow> 32 word \<Rightarrow> 32 word" where
  "Ch x y z = (x AND y) XOR (NOT x AND z)"

definition Maj :: "32 word \<Rightarrow> 32 word \<Rightarrow> 32 word \<Rightarrow> 32 word" where
  "Maj x y z = (x AND y) XOR (x AND z) XOR (y AND z)"

definition bsig0 :: "32 word \<Rightarrow> 32 word" where
  "bsig0 x = rotr 2 x XOR rotr 13 x XOR rotr 22 x"

definition bsig1 :: "32 word \<Rightarrow> 32 word" where
  "bsig1 x = rotr 6 x XOR rotr 11 x XOR rotr 25 x"

definition ssig0 :: "32 word \<Rightarrow> 32 word" where
  "ssig0 x = rotr 7 x XOR rotr 18 x XOR drop_bit 3 x"

definition ssig1 :: "32 word \<Rightarrow> 32 word" where
  "ssig1 x = rotr 17 x XOR rotr 19 x XOR drop_bit 10 x"

text \<open>The message length in bits, as eight bytes, most significant first.\<close>

definition be64 :: "64 word \<Rightarrow> 8 word list" where
  "be64 n = map (\<lambda>i. ucast (drop_bit (8 * (7 - i)) n)) [0..<8]"

text \<open>Padding: a one bit, zero bits up to 56 bytes modulo 64, then the length.\<close>

definition sha256_pad :: "8 word list \<Rightarrow> 8 word list" where
  "sha256_pad m =
     m @ [0x80] @ replicate ((119 - length m mod 64) mod 64) 0 @ be64 (of_nat (8 * length m))"

fun be_words :: "8 word list \<Rightarrow> 32 word list" where
  "be_words (a # b # c # d # r) =
     (push_bit 24 (ucast a) OR push_bit 16 (ucast b) OR push_bit 8 (ucast c) OR ucast d)
       # be_words r"
| "be_words r = []"

text \<open>The message schedule: \<open>schedule n w\<close> extends the words \<open>w\<close> by \<open>n\<close> more.\<close>

fun schedule :: "nat \<Rightarrow> 32 word list \<Rightarrow> 32 word list" where
  "schedule 0 w = w"
| "schedule (Suc n) w =
     schedule n (w @ [ssig1 (w ! (length w - 2)) + w ! (length w - 7)
                      + ssig0 (w ! (length w - 15)) + w ! (length w - 16)])"

fun sha256_round :: "32 word list \<Rightarrow> 32 word \<times> 32 word \<Rightarrow> 32 word list" where
  "sha256_round [a, b, c, d, e, f, g, h] (k, w) =
     (let t1 = h + bsig1 e + Ch e f g + k + w;
          t2 = bsig0 a + Maj a b c
      in [t1 + t2, a, b, c, d + t1, e, f, g])"
| "sha256_round s kw = s"

definition compress :: "32 word list \<Rightarrow> 32 word list \<Rightarrow> 32 word list" where
  "compress hs block = map2 (+) hs (foldl sha256_round hs (zip sha256_K (schedule 48 block)))"

fun process :: "32 word list \<Rightarrow> 32 word list \<Rightarrow> 32 word list" where
  "process hs ws =
     (if length ws < 16 then hs else process (compress hs (take 16 ws)) (drop 16 ws))"

declare process.simps [simp del]

definition word_bytes :: "32 word \<Rightarrow> 8 word list" where
  "word_bytes w = [ucast (drop_bit 24 w), ucast (drop_bit 16 w), ucast (drop_bit 8 w), ucast w]"

definition utf8 :: "string \<Rightarrow> 8 word list" where
  "utf8 s = map (\<lambda>c. of_nat (of_char c)) s"

definition sha256_words :: "string \<Rightarrow> 32 word list" where
  "sha256_words s = process sha256_H0 (be_words (sha256_pad (utf8 s)))"

definition sha256 :: "string \<Rightarrow> 8 word list" where
  "sha256 s = concat (map word_bytes (sha256_words s))"

definition hex_digit :: "nat \<Rightarrow> char" where
  "hex_digit n = ''0123456789abcdef'' ! n"

definition hex_of_byte :: "8 word \<Rightarrow> string" where
  "hex_of_byte b = [hex_digit (unat b div 16), hex_digit (unat b mod 16)]"

text \<open>\<^verbatim>\<open>digest("hex")\<close>: two lower-case digits per byte.\<close>

definition digest_hex :: "8 word list \<Rightarrow> string" where
  "digest_hex bs = concat (map hex_of_byte bs)"

section \<open>parseInt with radix 16\<close>

text \<open>
  \<^verbatim>\<open>parseInt(s, 16)\<close> skips leading white space, reads an optional sign and an
  optional prefix \<^verbatim>\<open>0x\<close> or \<^verbatim>\<open>0X\<close>, and then the longest run of hexadecimal digits;
  without a digit the result is NaN, which is \<open>None\<close> here. White space is the ASCII
  white space.
\<close>

definition hex_value :: "char \<Rightarrow> nat option" where
  "hex_value c =
     (let n = (of_char c :: nat)
      in if 48 \<le> n \<and> n \<le> 57 then Some (n - 48)
         else if 97 \<le> n \<and> n \<le> 102 then Some (n - 87)
         else if 65 \<le> n \<and> n \<le> 70 then Some (n - 55)
         else None)"

definition is_space :: "char \<Rightarrow> bool" where
  "is_space c = ((of_char c :: nat) = 32 \<or> (9 \<le> (of_char c :: nat) \<and> (of_char c :: nat) \<le> 13))"

definition parseInt16 :: "string \<Rightarrow> int option" where
  "parseInt16 s =
     (let s1 = dropWhile is_space s;
          sign = (if take 1 s1 = ''-'' then - 1 else 1);
          s2 = (if take 1 s1 = ''-'' \<or> take 1 s1 = ''+'' then drop 1 s1 else s1);
          s3 = (if take 2 s2 = ''0x'' \<or> take 2 s2 = ''0X'' then drop 2 s2 else s2);
          ds = takeWhile (\<lambda>c. hex_value c \<noteq> None) s3
      in if ds = [] then None
         else Some (sign * int (foldl (\<lambda>a c. 16 * a + the (hex_value c)) 0 ds)))"

section \<open>Seed derivation\<close>

text \<open>
  \<^verbatim>\<open>generateSeed(address, data?)\<close>. The optional parameter is \<open>None\<close> when it is not
  passed. The test \<^verbatim>\<open>data ? ... : ...\<close> is JavaScript truthiness: an absent and an empty
  string both take the second branch.
\<close>

definition generateSeed :: "string \<Rightarrow> string option \<Rightarrow> int option" where
  "generateSeed address data =
     (let input = (case data of
                     None \<Rightarrow> address
                   | Some d \<Rightarrow> if d \<noteq> [] then address @ ''-'' @ d else address);
          hash = digest_hex (sha256 input)
      in parseInt16 (take 8 hash))"

text \<open>
  The value of a string of hexadecimal digits in base 16, most significant digit first:
  the specification's reading of the parse.
\<close>

definition base16 :: "string \<Rightarrow> int" where
  "base16 ds = foldl (\<lambda>a c. 16 * a + int (the (hex_value c))) 0 ds"

text \<open>The eight hexadecimal digits of a 32-bit word, most significant first.\<close>

definition nibbles :: "32 word \<Rightarrow> nat list" where
  "nibbles w = concat (map (\<lambda>b. [unat b div 16, unat b mod 16]) (word_bytes w))"

section \<open>The unseeded random source\<close>

text \<open>
  \<^verbatim>\<open>Math.random()\<close> is an input of the program: \<open>rnd k\<close> is the value of its \<open>k\<close>-th call
  in a run, and the number of calls made so far is passed along. The runtime promises
  \<open>0 \<le> rnd k < 1\<close>.
\<close>

type_synonym rng = "nat \<Rightarrow> rat"

text \<open>\<^verbatim>\<open>random(min, max)\<close>.\<close>

definition random_js :: "rng \<Rightarrow> nat \<Rightarrow> int \<Rightarrow> int \<Rightarrow> int \<times> nat" where
  "random_js rnd k mn mx = (\<lfloor>rnd k * of_int (mx - mn + 1)\<rfloor> + mn, Suc k)"

section \<open>The drawing surface\<close>

text \<open>
  A number handed to the canvas is \<open>Some\<close> of a rational, or \<open>None\<close> when it is not a
  finite number (a division by zero, or arithmetic on \<^verbatim>\<open>undefined\<close>). Reading a list
  outside its bounds yields \<^verbatim>\<open>undefined\<close>, which is \<open>None\<close>.
\<close>

type_synonym jsnum = "rat option"

definition js_index :: "'a list \<Rightarrow> int \<Rightarrow> 'a option" where
  "js_index xs i = (if 0 \<le> i \<and> i < int (length xs) then Some (xs ! nat i) else None)"

definition js_div :: "rat \<Rightarrow> rat option \<Rightarrow> jsnum" where
  "js_div a b = (case b of None \<Rightarrow> None | Some d \<Rightarrow> if d = 0 then None else Some (a / d))"

definition js_add :: "jsnum \<Rightarrow> jsnum \<Rightarrow> jsnum" where
  "js_add a b =
     (case a of None \<Rightarrow> None | Some p \<Rightarrow> (case b of None \<Rightarrow> None | Some q \<Rightarrow> Some (p + q)))"

definition js_sub :: "jsnum \<Rightarrow> jsnum \<Rightarrow> jsnum" where
  "js_sub a b =
     (case a of None \<Rightarrow> None | Some p \<Rightarrow> (case b of None \<Rightarrow> None | Some q \<Rightarrow> Some (p - q)))"

datatype gradient = LinearGradient rat rat rat rat "(rat \<times> string) list"

definition createLinearGradient :: "rat \<Rightarrow> rat \<Rightarrow> rat \<Rightarrow> rat \<Rightarrow> gradient" where
  "createLinearGradient x0 y0 x1 y1 = LinearGradient x0 y0 x1 y1 []"

fun addColorStop :: "gradient \<Rightarrow> rat \<Rightarrow> string \<Rightarrow> gradient" where
  "addColorStop (LinearGradient x0 y0 x1 y1 stops) pos col =
     LinearGradient x0 y0 x1 y1 (stops @ [(pos, col)])"

datatype fill_style = ColorStyle "string option" | GradientStyle gradient

text \<open>The calls made on the 2D context, in order; \<open>'img\<close> is the type of decoded images.\<close>

datatype 'img canvas_call =
    SetFillStyle fill_style
  | FillRect rat rat rat rat
  | BeginPath
  | MoveTo jsnum jsnum
  | LineTo jsnum jsnum
  | ClosePath
  | Fill
  | Save
  | Translate rat rat
  | SetShadowColor string
  | SetShadowBlur rat
  | DrawImage 'img rat rat rat rat
  | Restore

record 'img canvas =
  canvas_width :: nat
  canvas_height :: nat
  calls :: "'img canvas_call list"

definition createCanvas :: "nat \<Rightarrow> nat \<Rightarrow> 'img canvas" where
  "createCanvas w h = \<lparr>canvas_width = w, canvas_height = h, calls = []\<rparr>"

definition ctx_do :: "'img canvas \<Rightarrow> 'img canvas_call list \<Rightarrow> 'img canvas" where
  "ctx_do cv cs = cv\<lparr>calls := calls cv @ cs\<rparr>"

section \<open>The pattern renderer\<close>

record pattern_settings =
  gridSize :: nat
  boxSize :: nat
  colors :: "string list"
  offsets :: "rat list"

definition settings :: pattern_settings where
  "settings =
     \<lparr>gridSize = 10, boxSize = 40,
      colors = [''#FFE8FF'', ''#FFIDFF'', ''#44106C'', ''#1A0335'', ''#672EEB''],
      offsets = [5 / 4, 27 / 20, 57 / 40, 3 / 2, 8 / 5, 2]\<rparr>"

text \<open>
  The loop \<^verbatim>\<open>while (elementColorIndex === bgColorIndex) elementColorIndex = random(0, mx)\<close>,
  where \<open>mx\<close> is the last palette index. It need not end, so its result is an option:
  \<open>None\<close> is a loop that runs forever.
\<close>

partial_function (option) elementColor_loop ::
  "rng \<Rightarrow> int \<Rightarrow> int \<Rightarrow> int \<Rightarrow> nat \<Rightarrow> (int \<times> nat) option" where
  "elementColor_loop rnd mx bgColorIndex elementColorIndex k =
     (if elementColorIndex = bgColorIndex
      then (case random_js rnd k 0 mx of
              (e, k') \<Rightarrow> elementColor_loop rnd mx bgColorIndex e k')
      else Some (elementColorIndex, k))"

declare elementColor_loop.simps [code]

text \<open>The values one iteration of the inner \<^verbatim>\<open>for\<close> loop computes before it draws.\<close>

record cell =
  cell_bg :: int
  cell_element :: int
  cell_x :: nat
  cell_y :: nat
  cell_offset :: jsnum

definition choose_cell ::
  "pattern_settings \<Rightarrow> rng \<Rightarrow> nat \<Rightarrow> nat \<Rightarrow> nat \<Rightarrow> (cell \<times> nat) option" where
  "choose_cell st rnd i j k =
     (case random_js rnd k 0 (int (length (colors st)) - 1) of (bgColorIndex, k1) \<Rightarrow>
     (case random_js rnd k1 0 (int (length (colors st)) - 1) of (e0, k2) \<Rightarrow>
     (case elementColor_loop rnd (int (length (colors st)) - 1) bgColorIndex e0 k2 of
        None \<Rightarrow> None
      | Some (elementColorIndex, k3) \<Rightarrow>
         (case random_js rnd k3 0 (int (length (offsets st)) - 1) of (oi, k4) \<Rightarrow>
            Some (\<lparr>cell_bg = bgColorIndex, cell_element = elementColorIndex,
                   cell_x = (i * boxSize st) mod 400, cell_y = (j * boxSize st) mod 400,
                   cell_offset = js_div (of_nat (boxSize st)) (js_index (offsets st) oi)\<rparr>,
                  k4)))))"

text \<open>The canvas calls of one iteration: the background square, then the cut-corner shape.\<close>

definition cell_calls :: "pattern_settings \<Rightarrow> cell \<Rightarrow> 'img canvas_call list" where
  "cell_calls st c =
     (let x = Some (of_nat (cell_x c));
          y = Some (of_nat (cell_y c));
          b = Some (of_nat (boxSize st));
          offset = cell_offset c
      in [SetFillStyle (ColorStyle (js_index (colors st) (cell_bg c))),
          FillRect (of_nat (cell_x c)) (of_nat (cell_y c)) (of_nat (boxSize st)) (of_nat (boxSize st)),
          SetFillStyle (ColorStyle (js_index (colors st) (cell_element c))),
          BeginPath,
          MoveTo (js_add x offset) y,
          LineTo (js_sub (js_add x b) offset) y,
          LineTo (js_add x b) (js_add y offset),
          LineTo (js_add x b) (js_sub (js_add y b) offset),
          LineTo (js_sub (js_add x b) offset) (js_add y b),
          LineTo (js_add x offset) (js_add y b),
          LineTo x (js_sub (js_add y b) offset),
          LineTo x (js_add y offset),
          ClosePath,
          Fill])"

text \<open>
  The two nested \<^verbatim>\<open>for\<close> loops visit the index pairs of \<open>grid\<close> in order, \<open>i\<close> outermost.
  The drawing calls of an iteration never feed back into the choices, so the loops
  yield the list of cells in the order visited.
\<close>

definition grid :: "pattern_settings \<Rightarrow> (nat \<times> nat) list" where
  "grid st = List.product [0..<gridSize st] [0..<gridSize st]"

fun choose_cells ::
  "pattern_settings \<Rightarrow> rng \<Rightarrow> (nat \<times> nat) list \<Rightarrow> nat \<Rightarrow> (cell list \<times> nat) option" where
  "choose_cells st rnd [] k = Some ([], k)"
| "choose_cells st rnd ((i, j) # ps) k =
     (case choose_cell st rnd i j k of
        None \<Rightarrow> None
      | Some (c, k') \<Rightarrow>
         (case choose_cells st rnd ps k' of
            None \<Rightarrow> None
          | Some (cs, k'') \<Rightarrow> Some (c # cs, k'')))"

definition drawPattern_with ::
  "pattern_settings \<Rightarrow> 'img canvas \<Rightarrow> rng \<Rightarrow> nat \<Rightarrow> ('img canvas \<times> nat) option" where
  "drawPattern_with st cv rnd k =
     (case choose_cells st rnd (grid st) k of
        None \<Rightarrow> None
      | Some (cs, k') \<Rightarrow> Some (ctx_do cv (concat (map (cell_calls st) cs)), k'))"

text \<open>\<^verbatim>\<open>drawPattern(canvas)\<close>, with the settings the source fixes.\<close>

definition drawPattern :: "'img canvas \<Rightarrow> rng \<Rightarrow> nat \<Rightarrow> ('img canvas \<times> nat) option" where
  "drawPattern cv rnd k = drawPattern_with settings cv rnd k"

section \<open>The request handler\<close>

text \<open>
  The query parameters follow the declared type \<^verbatim>\<open>BaseParams\<close>: strings, each possibly
  absent. \<open>loadImage\<close> is the outcome of fetching and decoding an image at a URL, \<open>None\<close>
  when that fails. The PNG buffer is determined by the canvas it encodes, so the
  response carries that canvas. A handler result of \<open>None\<close> is a request that is never
  answered because the pattern loop runs forever.
\<close>

record request =
  query_address :: "string option"
  query_data :: "string option"

datatype 'img response =
    JsonResponse nat "(string \<times> string) list"
  | PngResponse "'img canvas"

record 'img outcome =
  response :: "'img response"
  canvas_made :: "'img canvas option"
  random_calls :: nat
  images_requested :: "string list"
  errors_logged :: nat

definition imageUrl :: string where
  "imageUrl = ''https://blog.aavegotchi.com/content/images/2023/07/fulllogo.png''"

definition gradient_calls :: "'img canvas \<Rightarrow> 'img canvas_call list" where
  "gradient_calls cv =
     (let g0 = createLinearGradient 0 0 0 (of_nat (canvas_height cv));
          g1 = addColorStop g0 0 ''rgba(54, 54, 54, 0.37)'';
          g2 = addColorStop g1 (7 / 10) ''rgba(0, 0, 0, 0.67)'';
          g3 = addColorStop g2 1 ''rgb(0, 0, 0)''
      in [SetFillStyle (GradientStyle g3),
          FillRect 0 0 (of_nat (canvas_width cv)) (of_nat (canvas_height cv))])"

definition watermark_calls :: "'img canvas \<Rightarrow> 'img \<Rightarrow> 'img canvas_call list" where
  "watermark_calls cv baseImage =
     (let scaledWidth = 300;
          scaledHeight = 180;
          baseX = (of_nat (canvas_width cv) - scaledWidth) / 2;
          baseY = of_nat (canvas_height cv) - scaledHeight
      in [Save,
          Translate (baseX + scaledWidth / 2) (baseY + scaledHeight / 2),
          SetShadowColor ''rgb(0, 0, 0)'',
          SetShadowBlur 60,
          DrawImage baseImage (- scaledWidth / 2) (- scaledHeight / 2) scaledWidth scaledHeight,
          Restore])"

definition bad_request :: "'img outcome" where
  "bad_request =
     \<lparr>response = JsonResponse 400 [(''error'', ''Valid Ethereum address is required'')],
      canvas_made = None, random_calls = 0, images_requested = [], errors_logged = 0\<rparr>"

definition handler :: "request \<Rightarrow> rng \<Rightarrow> (string \<Rightarrow> 'img option) \<Rightarrow> 'img outcome option" where
  "handler req rnd loadImage =
     (case query_address req of
        None \<Rightarrow> Some bad_request
      | Some address \<Rightarrow>
          if address = [] then Some bad_request
          else
            (let seed = generateSeed address None;
                 canvas = createCanvas 400 400
             in case drawPattern canvas rnd 0 of
                  None \<Rightarrow> None
                | Some (patterned, k) \<Rightarrow>
                    (let shaded = ctx_do patterned (gradient_calls patterned)
                     in case loadImage imageUrl of
                          None \<Rightarrow>
                            Some \<lparr>response = JsonResponse 500 [(''error'', ''Internal server error'')],
                                  canvas_made = Some shaded, random_calls = k,
                                  images_requested = [imageUrl], errors_logged = 1\<rparr>
                        | Some baseImage \<Rightarrow>
                            (let final = ctx_do shaded (watermark_calls shaded baseImage)
                             in Some \<lparr>response = PngResponse final,
                                      canvas_made = Some final, random_calls = k,
                                      images_requested = [imageUrl], errors_logged = 0\<rparr>))))"

text \<open>Two sequences of values of \<^verbatim>\<open>Math.random()\<close>, for concrete runs.\<close>

definition rnd_a :: rng where
  "rnd_a k = of_nat (k mod 5) / 5"

definition rnd_b :: rng where
  "rnd_b k = of_nat ((k + 1) mod 5) / 5"

section \<open>Properties of the generator\<close>

lemma ToInt32_sint: "ToInt32 x = sint (word_of_int x :: 32 word)"
  by (simp add: ToInt32_def sint_sbintrunc' signed_take_bit_eq_take_bit_shift take_bit_eq_mod)

lemma ToInt32_sint_id: "ToInt32 (sint (w :: 32 word)) = sint w"
  by (simp add: ToInt32_sint)

lemma js_shl_word: "n < 32 \<Longrightarrow> js_shl a n = sint (push_bit n (word_of_int a :: 32 word))"
  by (simp add: js_shl_def ToInt32_sint push_bit_eq_mult)

lemma js_sar_word: "n < 32 \<Longrightarrow> js_sar a n = sint (signed_drop_bit n (word_of_int a :: 32 word))"
  by (simp add: js_sar_def ToInt32_sint sint_signed_drop_bit_eq drop_bit_eq_div)

lemma js_xor_word: "js_xor a b = sint ((word_of_int a :: 32 word) XOR word_of_int b)"
  by (simp add: js_xor_def ToInt32_sint signed_xor_eq)

lemma js_rem_abs: "\<bar>js_rem a b\<bar> = \<bar>a\<bar> mod \<bar>b\<bar>"
proof (cases "a = 0")
  case True
  then show ?thesis by (simp add: js_rem_def)
next
  case False
  have "0 \<le> \<bar>a\<bar> mod \<bar>b\<bar>"
    by (cases "b = 0") simp_all
  then show ?thesis using False
    by (simp add: js_rem_def abs_mult abs_sgn_eq)
qed

lemma next_snd:
  "snd (SeededRandom_next g) = g\<lparr>seed := sint (xorshift32 (word_of_int (seed g)))\<rparr>"
  by (simp add: SeededRandom_next_def xorshift32_def Let_def js_shl_word js_sar_word js_xor_word)

lemma next_state_word:
  "seed (snd (SeededRandom_next g)) = sint (xorshift32 (word_of_int (seed g)))"
  by (simp add: next_snd)

lemma next_value_eq:
  "fst (SeededRandom_next g) = of_int (\<bar>seed (snd (SeededRandom_next g))\<bar> mod 1000) / 1000"
  by (simp add: SeededRandom_next_def Let_def js_rem_abs)

lemma next_value_bounds:
  "0 \<le> fst (SeededRandom_next g) \<and> fst (SeededRandom_next g) < 1"
proof -
  let ?k = "\<bar>seed (snd (SeededRandom_next g))\<bar> mod 1000"
  have "0 \<le> ?k" and "?k < 1000" by simp_all
  then have "0 \<le> (of_int ?k :: rat)" and "(of_int ?k :: rat) < 1000" by linarith+
  then show ?thesis by (simp add: next_value_eq)
qed

text \<open>
  Claim C7. For every generator state, \<^verbatim>\<open>next()\<close> replaces the state by its xorshift
  transform (shift left by 13, signed shift right by 17, shift left by 5, each combined
  by exclusive or, on the 32-bit two's complement reading of the state) and returns the
  absolute value of the remainder of the new state by 1000, divided by 1000, which lies
  in the half-open interval from 0 to 1. The remainder is that of JavaScript's \<^verbatim>\<open>%\<close>, so
  its absolute value is the remainder of the absolute value.
\<close>

theorem SeededRandom_next_xorshift:
  "SeededRandom_next g =
     (of_int (\<bar>sint (xorshift32 (word_of_int (seed g)))\<bar> mod 1000) / 1000,
      g\<lparr>seed := sint (xorshift32 (word_of_int (seed g)))\<rparr>)
   \<and> 0 \<le> fst (SeededRandom_next g) \<and> fst (SeededRandom_next g) < 1"
proof -
  have v: "fst (SeededRandom_next g)
      = of_int (\<bar>sint (xorshift32 (word_of_int (seed g)))\<bar> mod 1000) / 1000"
    by (simp only: next_value_eq [of g] next_state_word)
  have "SeededRandom_next g = (fst (SeededRandom_next g), snd (SeededRandom_next g))"
    by simp
  then have "SeededRandom_next g =
     (of_int (\<bar>sint (xorshift32 (word_of_int (seed g)))\<bar> mod 1000) / 1000,
      g\<lparr>seed := sint (xorshift32 (word_of_int (seed g)))\<rparr>)"
    by (simp only: v next_snd)
  then show ?thesis using next_value_bounds [of g] by blast
qed

theorem SeededRandom_next_xorshift_witness:
  "SeededRandom_next (SeededRandom_new 1) = (369 / 1000, \<lparr>seed = 270369\<rparr>)
   \<and> SeededRandom_next (SeededRandom_new 4294967295) = (983 / 1000, \<lparr>seed = 253983\<rparr>)"
  using SeededRandom_next_xorshift [of "SeededRandom_new 1"]
    SeededRandom_next_xorshift [of "SeededRandom_new 4294967295"]
  by (simp add: SeededRandom_new_def xorshift32_def)



section \<open>Properties of the pattern renderer\<close>

lemma loop_result_differs:
  "elementColor_loop rnd mx bg el k = Some r \<Longrightarrow> fst r \<noteq> bg"
proof (induction rnd mx bg el k r rule: elementColor_loop.raw_induct [rotated 1, consumes 1])
  case (1 loop rnd mx bg el k r)
  then show ?case
    by (auto split: if_splits prod.splits)
qed



lemma choose_cell_differs:
  "choose_cell st rnd i j k = Some (c, k') \<Longrightarrow> cell_element c \<noteq> cell_bg c"
  by (auto simp: choose_cell_def split: prod.splits option.splits dest: loop_result_differs)

lemma choose_cells_differs:
  "choose_cells st rnd ps k = Some (cs, k') \<Longrightarrow> \<forall>c\<in>set cs. cell_element c \<noteq> cell_bg c"
proof (induction ps arbitrary: k cs)
  case Nil
  then show ?case by simp
next
  case (Cons p ps)
  obtain i j where p: "p = (i, j)" by (cases p)
  from Cons.prems p obtain c k1 cs1 where
    c: "choose_cell st rnd i j k = Some (c, k1)" and
    r: "choose_cells st rnd ps k1 = Some (cs1, k')" and cs: "cs = c # cs1"
    by (auto split: option.splits prod.splits)
  from Cons.IH [OF r] choose_cell_differs [OF c] cs show ?case by simp
qed

lemma choose_cells_length:
  "choose_cells st rnd ps k = Some (cs, k') \<Longrightarrow> length cs = length ps"
proof (induction ps arbitrary: k cs)
  case Nil
  then show ?case by simp
next
  case (Cons p ps)
  obtain i j where p: "p = (i, j)" by (cases p)
  from Cons.prems p obtain c k1 cs1 where
    r: "choose_cells st rnd ps k1 = Some (cs1, k')" and cs: "cs = c # cs1"
    by (auto split: option.splits prod.splits)
  from Cons.IH [OF r] cs show ?case by simp
qed





section \<open>Properties of the request handler\<close>

lemma cells_a: "choose_cells settings rnd_a (grid settings) 0 \<noteq> None"
  by code_simp

lemma cells_b: "choose_cells settings rnd_b (grid settings) 0 \<noteq> None"
  by code_simp

lemma first_a: "choose_cell settings rnd_a 0 0 0 =
    Some (\<lparr>cell_bg = 0, cell_element = 1, cell_x = 0, cell_y = 0,
           cell_offset = Some (1600 / 57)\<rparr>, 3)"
  by code_simp

lemma first_b: "choose_cell settings rnd_b 0 0 0 =
    Some (\<lparr>cell_bg = 1, cell_element = 2, cell_x = 0, cell_y = 0,
           cell_offset = Some (80 / 3)\<rparr>, 3)"
  by code_simp

lemma grid_settings_Cons: "grid settings = (0, 0) # tl (grid settings)"
  by (simp add: grid_def settings_def upt_conv_Cons)

lemma length_grid: "length (grid st) = gridSize st * gridSize st"
  by (simp add: grid_def)

lemma drawPattern_Some:
  "choose_cells settings rnd (grid settings) k = Some (cs, k') \<Longrightarrow>
     drawPattern cv rnd k = Some (ctx_do cv (concat (map (cell_calls settings) cs)), k')"
  by (simp add: drawPattern_def drawPattern_with_def)

lemma drawPattern_SomeD:
  "drawPattern cv rnd k = Some (cv', k') \<Longrightarrow>
     \<exists>cs. choose_cells settings rnd (grid settings) k = Some (cs, k')
        \<and> cv' = ctx_do cv (concat (map (cell_calls settings) cs))"
  by (auto simp: drawPattern_def drawPattern_with_def split: option.splits)

lemma first_call:
  assumes cs: "choose_cells settings rnd (grid settings) 0 = Some (cs, k')"
    and c: "choose_cell settings rnd 0 0 0 = Some (c, k1)"
  shows "\<exists>rest. concat (map (cell_calls settings) cs)
     = (SetFillStyle (ColorStyle (js_index (colors settings) (cell_bg c))) :: 'img canvas_call) # rest"
proof -
  from cs have "choose_cells settings rnd ((0, 0) # tl (grid settings)) 0 = Some (cs, k')"
    using grid_settings_Cons by simp
  with c obtain cs1 where "cs = c # cs1"
    by (auto split: option.splits prod.splits)
  then show ?thesis by (simp add: cell_calls_def Let_def)
qed

lemma handler_present:
  assumes "query_address req = Some a" and "a \<noteq> []"
  shows "handler req rnd loadImage =
     (case drawPattern (createCanvas 400 400) rnd 0 of
        None \<Rightarrow> None
      | Some (patterned, k) \<Rightarrow>
          (case loadImage imageUrl of
             None \<Rightarrow>
               Some \<lparr>response = JsonResponse 500 [(''error'', ''Internal server error'')],
                     canvas_made = Some (ctx_do patterned (gradient_calls patterned)),
                     random_calls = k, images_requested = [imageUrl], errors_logged = 1\<rparr>
           | Some baseImage \<Rightarrow>
               Some \<lparr>response = PngResponse
                        (ctx_do (ctx_do patterned (gradient_calls patterned))
                           (watermark_calls (ctx_do patterned (gradient_calls patterned)) baseImage)),
                     canvas_made = Some
                        (ctx_do (ctx_do patterned (gradient_calls patterned))
                           (watermark_calls (ctx_do patterned (gradient_calls patterned)) baseImage)),
                     random_calls = k, images_requested = [imageUrl], errors_logged = 0\<rparr>))"
  using assms by (simp add: handler_def Let_def split: option.splits)

lemma handler_first_call:
  assumes a: "query_address req = Some a" "a \<noteq> []"
    and cs: "choose_cells settings rnd (grid settings) 0 = Some (cs, k')"
    and c: "choose_cell settings rnd 0 0 0 = Some (c, k1)"
    and img: "loadImage imageUrl = Some img"
  shows "\<exists>out cv. handler req rnd loadImage = Some out \<and> response out = PngResponse cv
     \<and> hd (calls cv) = SetFillStyle (ColorStyle (js_index (colors settings) (cell_bg c)))"
proof -
  from first_call [OF cs c] obtain rest :: "'a canvas_call list" where
    r: "concat (map (cell_calls settings) cs)
          = SetFillStyle (ColorStyle (js_index (colors settings) (cell_bg c))) # rest"
    by blast
  show ?thesis
    unfolding handler_present [OF a]
    by (simp add: drawPattern_Some [OF cs] img ctx_do_def createCanvas_def r)
qed

text \<open>
  Claim C1. The same identifier is rendered twice, with two sequences of values of
  \<^verbatim>\<open>Math.random()\<close>: both requests are answered with a PNG, the two images differ (the
  first cell already has another background colour), although the seed derived from
  the identifier is the same in both runs.
\<close>

theorem same_identifier_different_image:
  "handler \<lparr>query_address = Some ''0x1'', query_data = None\<rparr> rnd_a (\<lambda>u. Some ())
     \<noteq> handler \<lparr>query_address = Some ''0x1'', query_data = None\<rparr> rnd_b (\<lambda>u. Some ())
   \<and> handler \<lparr>query_address = Some ''0x1'', query_data = None\<rparr> rnd_a (\<lambda>u. Some ()) \<noteq> None
   \<and> handler \<lparr>query_address = Some ''0x1'', query_data = None\<rparr> rnd_b (\<lambda>u. Some ()) \<noteq> None"
proof -
  let ?req = "\<lparr>query_address = Some ''0x1'', query_data = None\<rparr>"
  let ?li = "\<lambda>u::string. Some ()"
  have q: "query_address ?req = Some ''0x1''" "''0x1'' \<noteq> []" by simp_all
  from cells_a obtain csa ka where
    ca: "choose_cells settings rnd_a (grid settings) 0 = Some (csa, ka)" by auto
  from cells_b obtain csb kb where
    cb: "choose_cells settings rnd_b (grid settings) 0 = Some (csb, kb)" by auto
  from handler_first_call [OF q ca first_a, of ?li "()"] obtain outa cva where
    a: "handler ?req rnd_a ?li = Some outa" "response outa = PngResponse cva"
       "hd (calls cva) = SetFillStyle (ColorStyle (js_index (colors settings) 0))"
    by auto
  from handler_first_call [OF q cb first_b, of ?li "()"] obtain outb cvb where
    b: "handler ?req rnd_b ?li = Some outb" "response outb = PngResponse cvb"
       "hd (calls cvb) = SetFillStyle (ColorStyle (js_index (colors settings) 1))"
    by auto
  have "js_index (colors settings) 0 \<noteq> js_index (colors settings) 1"
    by (simp add: js_index_def settings_def)
  with a b have "outa \<noteq> outb" by auto
  with a(1) b(1) show ?thesis by simp
qed

text \<open>
  Claim C5. Whenever \<^verbatim>\<open>drawPattern\<close> returns, it has drawn one cell per grid position
  (100 with the settings of the source), its canvas calls are those of these cells in
  order, and in every cell the foreground colour index differs from the background
  colour index.
\<close>

theorem drawPattern_colors_differ:
  assumes "drawPattern cv rnd k = Some (cv', k')"
  shows "\<exists>cs. choose_cells settings rnd (grid settings) k = Some (cs, k')
     \<and> calls cv' = calls cv @ concat (map (cell_calls settings) cs)
     \<and> length cs = 100
     \<and> (\<forall>c\<in>set cs. cell_element c \<noteq> cell_bg c)"
proof -
  from drawPattern_SomeD [OF assms] obtain cs where
    cs: "choose_cells settings rnd (grid settings) k = Some (cs, k')"
    and cv': "cv' = ctx_do cv (concat (map (cell_calls settings) cs))"
    by blast
  have "length cs = length (grid settings)" using cs by (rule choose_cells_length)
  then have len: "length cs = 100" by (simp add: length_grid) (simp add: settings_def)
  from cs have "\<forall>c\<in>set cs. cell_element c \<noteq> cell_bg c" by (rule choose_cells_differs)
  with cs cv' len show ?thesis by (auto simp: ctx_do_def)
qed

theorem drawPattern_colors_differ_witness:
  "drawPattern (createCanvas 400 400 :: unit canvas) rnd_a 0 \<noteq> None
   \<and> list_all (\<lambda>c. cell_element c \<noteq> cell_bg c)
        (fst (the (choose_cells settings rnd_a (grid settings) 0)))
   \<and> length (fst (the (choose_cells settings rnd_a (grid settings) 0))) = 100"
proof -
  from cells_a obtain cs k' where
    cs: "choose_cells settings rnd_a (grid settings) 0 = Some (cs, k')" by auto
  have d: "drawPattern (createCanvas 400 400 :: unit canvas) rnd_a 0
      = Some (ctx_do (createCanvas 400 400) (concat (map (cell_calls settings) cs)), k')"
    using cs by (rule drawPattern_Some)
  from drawPattern_colors_differ [OF d] cs show ?thesis
    by (auto simp: d list_all_iff)
qed

text \<open>
  Claim C2. Two requests with non-empty addresses, whatever their data parameters, are
  answered identically when the values of the random source and the outcome of loading
  the watermark are the same: the seed computed from the address is not used, and the
  data parameter is not read.
\<close>

theorem handler_ignores_address_and_data:
  assumes "query_address r1 = Some a1" and "a1 \<noteq> []"
    and "query_address r2 = Some a2" and "a2 \<noteq> []"
  shows "handler r1 rnd loadImage = handler r2 rnd loadImage"
  by (simp only: handler_present [OF assms(1,2)] handler_present [OF assms(3,4)])

theorem handler_ignores_address_and_data_witness:
  "handler \<lparr>query_address = Some ''0x1'', query_data = None\<rparr> rnd_a (\<lambda>u. Some ())
     = handler \<lparr>query_address = Some ''0xabc'', query_data = Some ''x''\<rparr> rnd_a (\<lambda>u. Some ())
   \<and> (\<exists>cv. map_option response
          (handler \<lparr>query_address = Some ''0xabc'', query_data = Some ''x''\<rparr> rnd_a (\<lambda>u. Some ()))
        = Some (PngResponse cv))"
proof -
  let ?r1 = "\<lparr>query_address = Some ''0x1'', query_data = None\<rparr>"
  let ?r2 = "\<lparr>query_address = Some ''0xabc'', query_data = Some ''x''\<rparr>"
  let ?li = "\<lambda>u::string. Some ()"
  have q1: "query_address ?r1 = Some ''0x1''" "''0x1'' \<noteq> []" by simp_all
  have q2: "query_address ?r2 = Some ''0xabc''" "''0xabc'' \<noteq> []" by simp_all
  have e: "handler ?r1 rnd_a ?li = handler ?r2 rnd_a ?li"
    using q1 q2 by (rule handler_ignores_address_and_data)
  from cells_a obtain cs k' where
    cs: "choose_cells settings rnd_a (grid settings) 0 = Some (cs, k')" by auto
  from handler_first_call [OF q2 cs first_a, of ?li "()"] obtain out cv where
    "handler ?r2 rnd_a ?li = Some out" "response out = PngResponse cv" by auto
  then have "map_option response (handler ?r2 rnd_a ?li) = Some (PngResponse cv)" by simp
  with e show ?thesis by blast
qed

text \<open>
  Claim C8. A request without an address, or with an empty one, is answered with
  status 400 and the JSON body \<^verbatim>\<open>{"error": "Valid Ethereum address is required"}\<close>;
  no canvas is made, no random value is drawn, no image is requested and nothing is
  logged.
\<close>

theorem handler_rejects_missing_address:
  assumes "query_address req = None \<or> query_address req = Some []"
  shows "handler req rnd loadImage =
     Some \<lparr>response = JsonResponse 400 [(''error'', ''Valid Ethereum address is required'')],
           canvas_made = None, random_calls = 0, images_requested = [], errors_logged = 0\<rparr>"
  using assms by (auto simp: handler_def bad_request_def)

theorem handler_rejects_missing_address_witness:
  "handler \<lparr>query_address = None, query_data = Some ''x''\<rparr> rnd_a (\<lambda>u. Some ()) =
     Some \<lparr>response = JsonResponse 400 [(''error'', ''Valid Ethereum address is required'')],
           canvas_made = None, random_calls = 0, images_requested = [], errors_logged = 0\<rparr>
   \<and> handler \<lparr>query_address = Some [], query_data = None\<rparr> (\<lambda>k. 0) (\<lambda>u. Some ()) =
     Some \<lparr>response = JsonResponse 400 [(''error'', ''Valid Ethereum address is required'')],
           canvas_made = None, random_calls = 0, images_requested = [], errors_logged = 0\<rparr>"
  using handler_rejects_missing_address
          [of "\<lparr>query_address = None, query_data = Some ''x''\<rparr>" rnd_a "\<lambda>u. Some ()"]
        handler_rejects_missing_address
          [of "\<lparr>query_address = Some [], query_data = None\<rparr>" "\<lambda>k. 0" "\<lambda>u. Some ()"]
  by simp

text \<open>
  Claim C9. When loading the watermark image fails, no request is answered with a PNG;
  a request with an address whose pattern has been drawn is answered with status 500
  and the JSON body \<^verbatim>\<open>{"error": "Internal server error"}\<close>, after one logged error. The
  canvas drawn so far is not sent.
\<close>

theorem handler_image_failure:
  fixes loadImage :: "string \<Rightarrow> 'img option"
  assumes "loadImage imageUrl = None"
  shows "(\<forall>out cv. handler req rnd loadImage = Some out \<longrightarrow> response out \<noteq> PngResponse cv)
     \<and> (\<forall>a patterned k.
           query_address req = Some a \<and> a \<noteq> []
           \<and> drawPattern (createCanvas 400 400) rnd 0 = Some (patterned, k) \<longrightarrow>
           handler req rnd loadImage =
             Some \<lparr>response = JsonResponse 500 [(''error'', ''Internal server error'')],
                   canvas_made = Some (ctx_do patterned (gradient_calls patterned)),
                   random_calls = k, images_requested = [imageUrl], errors_logged = 1\<rparr>)"
proof (intro conjI allI impI)
  fix out cv
  assume h: "handler req rnd loadImage = Some out"
  show "response out \<noteq> PngResponse cv"
  proof (cases "query_address req = None \<or> query_address req = Some []")
    case True
    with h show ?thesis by (auto simp: handler_def bad_request_def)
  next
    case False
    then obtain a where a: "query_address req = Some a" "a \<noteq> []" by auto
    from h show ?thesis
      unfolding handler_present [OF a]
      by (auto simp: assms split: option.splits)
  qed
next
  fix a and patterned :: "'img canvas" and k
  assume "query_address req = Some a \<and> a \<noteq> []
      \<and> drawPattern (createCanvas 400 400) rnd 0 = Some (patterned, k)"
  then have a: "query_address req = Some a" "a \<noteq> []"
    and d: "drawPattern (createCanvas 400 400) rnd 0 = Some (patterned, k)" by simp_all
  show "handler req rnd loadImage =
      Some \<lparr>response = JsonResponse 500 [(''error'', ''Internal server error'')],
            canvas_made = Some (ctx_do patterned (gradient_calls patterned)),
            random_calls = k, images_requested = [imageUrl], errors_logged = 1\<rparr>"
    unfolding handler_present [OF a] by (simp add: d assms)
qed

theorem handler_image_failure_witness:
  "map_option response
     (handler \<lparr>query_address = Some ''0x1'', query_data = None\<rparr> rnd_a (\<lambda>u. None :: unit option))
   = Some (JsonResponse 500 [(''error'', ''Internal server error'')])"
proof -
  let ?req = "\<lparr>query_address = Some ''0x1'', query_data = None\<rparr>"
  let ?li = "\<lambda>u::string. None :: unit option"
  have f: "?li imageUrl = None" by simp
  from cells_a obtain cs k' where
    cs: "choose_cells settings rnd_a (grid settings) 0 = Some (cs, k')" by auto
  have d: "drawPattern (createCanvas 400 400 :: unit canvas) rnd_a 0
      = Some (ctx_do (createCanvas 400 400) (concat (map (cell_calls settings) cs)), k')"
    using cs by (rule drawPattern_Some)
  from handler_image_failure [OF f, of ?req rnd_a] d
  have "handler ?req rnd_a ?li =
      Some \<lparr>response = JsonResponse 500 [(''error'', ''Internal server error'')],
            canvas_made = Some (ctx_do (ctx_do (createCanvas 400 400)
               (concat (map (cell_calls settings) cs)))
               (gradient_calls (ctx_do (createCanvas 400 400)
                  (concat (map (cell_calls settings) cs))))),
            random_calls = k', images_requested = [imageUrl], errors_logged = 1\<rparr>"
    by simp
  then show ?thesis by simp
qed

section \<open>Properties of the seed derivation\<close>

lemma hex_digit_table:
  "list_all (\<lambda>n. hex_value (hex_digit n) = Some n \<and> \<not> is_space (hex_digit n)
      \<and> hex_digit n \<noteq> CHR ''-'' \<and> hex_digit n \<noteq> CHR ''+''
      \<and> hex_digit n \<noteq> CHR ''x'' \<and> hex_digit n \<noteq> CHR ''X'') [0..<16]"
  by code_simp

lemma hex_digit_facts:
  assumes "n < 16"
  shows "hex_value (hex_digit n) = Some n" and "\<not> is_space (hex_digit n)"
    and "hex_digit n \<noteq> CHR ''-''" and "hex_digit n \<noteq> CHR ''+''"
    and "hex_digit n \<noteq> CHR ''x''" and "hex_digit n \<noteq> CHR ''X''"
proof -
  from assms have "n \<in> set [0..<16]" by simp
  with hex_digit_table show "hex_value (hex_digit n) = Some n" and "\<not> is_space (hex_digit n)"
    and "hex_digit n \<noteq> CHR ''-''" and "hex_digit n \<noteq> CHR ''+''"
    and "hex_digit n \<noteq> CHR ''x''" and "hex_digit n \<noteq> CHR ''X''"
    unfolding list_all_iff by blast+
qed

lemma foldl_hex_digits:
  "\<forall>n\<in>set ns. n < 16 \<Longrightarrow>
     foldl (\<lambda>a c. 16 * a + the (hex_value c)) acc (map hex_digit ns)
       = foldl (\<lambda>a n. 16 * a + n) acc ns"
  by (induction ns arbitrary: acc) (simp_all add: hex_digit_facts)

lemma takeWhile_hex_digits:
  "\<forall>n\<in>set ns. n < 16 \<Longrightarrow>
     takeWhile (\<lambda>c. hex_value c \<noteq> None) (map hex_digit ns) = map hex_digit ns"
  by (induction ns) (simp_all add: hex_digit_facts)

lemma parseInt16_hex_digits:
  assumes "\<forall>n\<in>set ns. n < 16" and "ns \<noteq> []"
  shows "parseInt16 (map hex_digit ns) = Some (int (foldl (\<lambda>a n. 16 * a + n) 0 ns))"
proof -
  from assms obtain n ms where ns: "ns = n # ms" by (cases ns) auto
  with assms have n: "n < 16" and ms: "\<forall>m\<in>set ms. m < 16" by simp_all
  have sp: "dropWhile is_space (map hex_digit ns) = map hex_digit ns"
    by (simp add: ns hex_digit_facts [OF n])
  have sg: "take 1 (map hex_digit ns) \<noteq> ''-''" "take 1 (map hex_digit ns) \<noteq> ''+''"
    by (simp_all add: ns hex_digit_facts [OF n])
  have px: "take 2 (map hex_digit ns) \<noteq> ''0x''" "take 2 (map hex_digit ns) \<noteq> ''0X''"
  proof -
    show "take 2 (map hex_digit ns) \<noteq> ''0x''"
    proof (cases ms)
      case Nil
      then show ?thesis by (simp add: ns)
    next
      case (Cons m ms')
      with ms have "m < 16" by simp
      then show ?thesis by (simp add: ns Cons hex_digit_facts numeral_2_eq_2)
    qed
    show "take 2 (map hex_digit ns) \<noteq> ''0X''"
    proof (cases ms)
      case Nil
      then show ?thesis by (simp add: ns)
    next
      case (Cons m ms')
      with ms have "m < 16" by simp
      then show ?thesis by (simp add: ns Cons hex_digit_facts numeral_2_eq_2)
    qed
  qed
  have ne: "map hex_digit ns \<noteq> []" using assms(2) by simp
  show ?thesis
    unfolding parseInt16_def Let_def sp
    using sg px ne
    by (simp add: takeWhile_hex_digits [OF assms(1)] foldl_hex_digits [OF assms(1)]
          del: not_None_eq)
qed

lemma foldl_hex_digits_int:
  "\<forall>n\<in>set ns. n < 16 \<Longrightarrow>
     foldl (\<lambda>a c. 16 * a + int (the (hex_value c))) (int acc) (map hex_digit ns)
       = int (foldl (\<lambda>a n. 16 * a + n) acc ns)"
proof (induction ns arbitrary: acc)
  case Nil
  show ?case by simp
next
  case (Cons n ns)
  then have n: "n < 16" and ns: "\<forall>m\<in>set ns. m < 16" by simp_all
  have "foldl (\<lambda>a c. 16 * a + int (the (hex_value c))) (int acc) (map hex_digit (n # ns))
      = foldl (\<lambda>a c. 16 * a + int (the (hex_value c))) (int (16 * acc + n)) (map hex_digit ns)"
    by (simp add: hex_digit_facts [OF n])
  also have "\<dots> = int (foldl (\<lambda>a n. 16 * a + n) (16 * acc + n) ns)"
    using ns by (rule Cons.IH)
  finally show ?case by simp
qed

lemma base16_hex_digits:
  "\<forall>n\<in>set ns. n < 16 \<Longrightarrow> base16 (map hex_digit ns) = int (foldl (\<lambda>a n. 16 * a + n) 0 ns)"
  using foldl_hex_digits_int [of ns 0] by (simp add: base16_def)

lemma nibbles_small: "\<forall>n\<in>set (nibbles w). n < 16"
proof -
  have "unat b div 16 < 16" for b :: "8 word"
    using unsigned_less [of b, where ?'a = nat] by simp
  then show ?thesis by (auto simp: nibbles_def word_bytes_def)
qed

lemma digest_hex_word: "digest_hex (word_bytes w) = map hex_digit (nibbles w)"
  by (simp add: digest_hex_def nibbles_def word_bytes_def hex_of_byte_def)

lemma byte_of_word:
  "unat (ucast (drop_bit k (w :: 32 word)) :: 8 word) = unat w div 2 ^ k mod 256"
proof -
  have "unat (ucast (drop_bit k w) :: 8 word) = take_bit 8 (drop_bit k (unat w))"
    by (simp only: unsigned_ucast_eq unat_drop_bit_eq) simp
  then show ?thesis by (simp add: drop_bit_eq_div take_bit_eq_mod)
qed

lemma nibble_pair: "16 * (16 * a + b div 16) + b mod 16 = 256 * a + (b :: nat)"
  by presburger

lemma be_value:
  fixes N :: nat
  assumes "N < 4294967296"
  shows "256 * (256 * (256 * (N div 16777216 mod 256) + N div 65536 mod 256)
           + N div 256 mod 256) + N mod 256 = N"
proof -
  define q1 where "q1 = N div 256"
  define q2 where "q2 = q1 div 256"
  define q3 where "q3 = q2 div 256"
  have a: "N div 65536 = q2"
    unfolding q2_def q1_def by (simp add: div_mult2_eq [symmetric])
  have b: "N div 16777216 = q3"
    unfolding q3_def q2_def q1_def by (simp add: div_mult2_eq [symmetric])
  have c: "q3 < 256" using assms unfolding b [symmetric] by simp
  have e1: "N = 256 * q1 + N mod 256" unfolding q1_def by simp
  have e2: "q1 = 256 * q2 + q1 mod 256" unfolding q2_def by simp
  have e3: "q2 = 256 * q3 + q2 mod 256" unfolding q3_def by simp
  have "256 * (256 * (256 * (q3 mod 256) + q2 mod 256) + q1 mod 256) + N mod 256 = N"
    using c e1 e2 e3 by simp
  then show ?thesis by (simp only: a b q1_def [symmetric])
qed

lemma nibbles_value: "foldl (\<lambda>a n. 16 * a + n) 0 (nibbles w) = unat w"
proof -
  let ?N = "unat w"
  have lt: "?N < 4294967296" using unsigned_less [of w, where ?'a = nat] by simp
  have b3: "unat (ucast w :: 8 word) = ?N mod 256"
    by (simp add: unsigned_ucast_eq take_bit_eq_mod)
  have b2: "unat (ucast (drop_bit 8 w) :: 8 word) = ?N div 256 mod 256"
    using byte_of_word [of 8 w] by simp
  have b1: "unat (ucast (drop_bit 16 w) :: 8 word) = ?N div 65536 mod 256"
    using byte_of_word [of 16 w] by simp
  have b0: "unat (ucast (drop_bit 24 w) :: 8 word) = ?N div 16777216 mod 256"
    using byte_of_word [of 24 w] by simp
  have "foldl (\<lambda>a n. 16 * a + n) 0 (nibbles w)
      = 256 * (256 * (256 * (?N div 16777216 mod 256) + ?N div 65536 mod 256)
           + ?N div 256 mod 256) + ?N mod 256"
    unfolding nibbles_def word_bytes_def
    by (simp only: list.map concat.simps append.simps foldl.simps nibble_pair b0 b1 b2 b3) simp
  also have "\<dots> = ?N" using lt by (rule be_value)
  finally show ?thesis .
qed

lemma length_sha256_round: "length s = 8 \<Longrightarrow> length (sha256_round s kw) = 8"
proof -
  assume "length s = 8"
  then obtain a b c d e f g h where s: "s = [a, b, c, d, e, f, g, h]"
    by (auto simp: length_Suc_conv numeral_eq_Suc)
  obtain k w where kw: "kw = (k, w)" by (cases kw)
  show ?thesis by (simp add: s kw Let_def)
qed

lemma length_foldl_round: "length s = 8 \<Longrightarrow> length (foldl sha256_round s kws) = 8"
  by (induction kws arbitrary: s) (simp_all add: length_sha256_round)

lemma length_compress: "length hs = 8 \<Longrightarrow> length (compress hs block) = 8"
  by (simp add: compress_def length_foldl_round)

lemma length_process: "length hs = 8 \<Longrightarrow> length (process hs ws) = 8"
proof (induction hs ws rule: process.induct)
  case (1 hs ws)
  show ?case
  proof (cases "length ws < 16")
    case True
    with 1 show ?thesis by (subst process.simps) simp
  next
    case False
    with 1 have "length (process (compress hs (take 16 ws)) (drop 16 ws)) = 8"
      by (simp add: length_compress)
    with False show ?thesis by (subst process.simps) simp
  qed
qed

lemma length_sha256_words: "length (sha256_words s) = 8"
  by (simp add: sha256_words_def length_process sha256_H0_def)

lemma length_sha256: "length (sha256 s) = 32"
proof -
  have "length (concat (map word_bytes ws)) = 4 * length ws" for ws
    by (induction ws) (simp_all add: word_bytes_def)
  then show ?thesis by (simp add: sha256_def length_sha256_words)
qed

lemma take8_digest_hex:
  "take 8 (digest_hex (sha256 s)) = map hex_digit (nibbles (hd (sha256_words s)))"
proof -
  from length_sha256_words [of s] obtain w ws where ws: "sha256_words s = w # ws"
    by (cases "sha256_words s") auto
  have "digest_hex (sha256 s) = digest_hex (word_bytes w) @ digest_hex (concat (map word_bytes ws))"
    by (simp add: sha256_def ws digest_hex_def)
  moreover have "length (digest_hex (word_bytes w)) = 8"
    by (simp add: digest_hex_def word_bytes_def hex_of_byte_def)
  ultimately have "take 8 (digest_hex (sha256 s)) = digest_hex (word_bytes w)" by simp
  then show ?thesis by (simp add: ws digest_hex_word)
qed

lemma nibbles_nonempty: "nibbles w \<noteq> []"
  by (simp add: nibbles_def word_bytes_def)

lemma parse_digest_prefix:
  "parseInt16 (take 8 (digest_hex (sha256 s))) = Some (uint (hd (sha256_words s)))"
  by (simp only: take8_digest_hex parseInt16_hex_digits [OF nibbles_small nibbles_nonempty]
      nibbles_value) simp

lemma base16_digest_prefix:
  "base16 (take 8 (digest_hex (sha256 s))) = uint (hd (sha256_words s))"
  by (simp only: take8_digest_hex base16_hex_digits [OF nibbles_small] nibbles_value) simp

lemma uint32_range: "0 \<le> uint (w :: 32 word) \<and> uint w \<le> 0xFFFFFFFF"
  using unsigned_less [of w, where ?'a = int] by simp

lemma length_nibbles: "length (nibbles w) = 8"
  by (simp add: nibbles_def word_bytes_def)

lemma hex_digit_char: "n < 16 \<Longrightarrow> hex_digit n \<in> set ''0123456789abcdef''"
  unfolding hex_digit_def by (rule nth_mem) simp

lemma prefix_hex_chars:
  "length (take 8 (digest_hex (sha256 s))) = 8
   \<and> (\<forall>c\<in>set (take 8 (digest_hex (sha256 s))). c \<in> set ''0123456789abcdef'')"
proof -
  have "\<forall>c\<in>set (map hex_digit (nibbles w)). c \<in> set ''0123456789abcdef''" for w
  proof
    fix c
    assume "c \<in> set (map hex_digit (nibbles w))"
    then obtain n where "n \<in> set (nibbles w)" and c: "c = hex_digit n" by auto
    with nibbles_small have "n < 16" by blast
    then show "c \<in> set ''0123456789abcdef''" unfolding c by (rule hex_digit_char)
  qed
  then show ?thesis
    by (simp only: take8_digest_hex length_map length_nibbles) simp
qed

text \<open>
  Claim C6. \<^verbatim>\<open>generateSeed\<close> hashes \<open>address-data\<close> when the data parameter is present
  (passed and not empty) and the address alone otherwise; its result is the value in
  base 16 of the first 8 characters of the hexadecimal SHA-256 digest, these 8
  characters are hexadecimal digits, the value is that of the first 32 bits of the
  digest and lies between 0 and \<open>0xFFFFFFFF\<close>. The function depends on nothing but its
  two arguments.
\<close>

theorem generateSeed_is_hash_prefix:
  "(data \<noteq> None \<and> data \<noteq> Some [] \<longrightarrow>
      generateSeed address data
        = Some (base16 (take 8 (digest_hex (sha256 (address @ ''-'' @ the data))))))
   \<and> (data = None \<or> data = Some [] \<longrightarrow>
      generateSeed address data = Some (base16 (take 8 (digest_hex (sha256 address)))))
   \<and> (\<forall>s. length (take 8 (digest_hex (sha256 s))) = 8
          \<and> (\<forall>c\<in>set (take 8 (digest_hex (sha256 s))). c \<in> set ''0123456789abcdef'')
          \<and> base16 (take 8 (digest_hex (sha256 s))) = uint (hd (sha256_words s)))
   \<and> (\<exists>v. generateSeed address data = Some v \<and> 0 \<le> v \<and> v \<le> 0xFFFFFFFF)
   \<and> (\<forall>address' data'. address' = address \<and> data' = data \<longrightarrow>
          generateSeed address' data' = generateSeed address data)"
proof (intro conjI impI allI)
  assume "data \<noteq> None \<and> data \<noteq> Some []"
  then obtain d where d: "data = Some d" "d \<noteq> []" by auto
  show "generateSeed address data
      = Some (base16 (take 8 (digest_hex (sha256 (address @ ''-'' @ the data)))))"
    by (simp add: generateSeed_def d parse_digest_prefix base16_digest_prefix)
next
  assume "data = None \<or> data = Some []"
  then show "generateSeed address data = Some (base16 (take 8 (digest_hex (sha256 address))))"
    by (auto simp: generateSeed_def parse_digest_prefix base16_digest_prefix)
next
  fix s
  show "length (take 8 (digest_hex (sha256 s))) = 8"
    using prefix_hex_chars by blast
  show "\<forall>c\<in>set (take 8 (digest_hex (sha256 s))). c \<in> set ''0123456789abcdef''"
    using prefix_hex_chars by blast
  show "base16 (take 8 (digest_hex (sha256 s))) = uint (hd (sha256_words s))"
    by (rule base16_digest_prefix)
next
  have "\<exists>s. generateSeed address data = Some (uint (hd (sha256_words s)))"
    by (cases data) (auto simp: generateSeed_def Let_def parse_digest_prefix)
  then show "\<exists>v. generateSeed address data = Some v \<and> 0 \<le> v \<and> v \<le> 0xFFFFFFFF"
    using uint32_range by blast
next
  fix address' data'
  assume "address' = address \<and> data' = data"
  then show "generateSeed address' data' = generateSeed address data" by simp
qed

text \<open>
  Claim C10. An empty data string is treated as an absent one: the input of the hash is
  the address alone, not the address followed by a hyphen.
\<close>

theorem generateSeed_empty_data:
  "generateSeed a (Some []) = generateSeed a None
   \<and> generateSeed a (Some []) = Some (base16 (take 8 (digest_hex (sha256 a))))"
  by (simp add: generateSeed_def parse_digest_prefix base16_digest_prefix)

lemma digest_0xabc: "take 8 (digest_hex (sha256 ''0xabc'')) = ''eb4b9e89''"
  by code_simp

lemma digest_0xabc_x: "take 8 (digest_hex (sha256 ''0xabc-x'')) = ''40fdf850''"
  by code_simp

lemma base16_eb4b9e89: "base16 ''eb4b9e89'' = 3947601545"
  by code_simp

lemma base16_40fdf850: "base16 ''40fdf850'' = 1090386000"
  by code_simp

theorem generateSeed_is_hash_prefix_witness:
  "generateSeed ''0xabc'' (Some ''x'') = Some 1090386000
   \<and> generateSeed ''0xabc'' None = Some 3947601545"
proof -
  have "generateSeed ''0xabc'' (Some ''x'')
      = Some (base16 (take 8 (digest_hex (sha256 (''0xabc'' @ ''-'' @ the (Some ''x''))))))"
    using generateSeed_is_hash_prefix [of "Some ''x''" "''0xabc''"] by blast
  then have a: "generateSeed ''0xabc'' (Some ''x'') = Some 1090386000"
    by (simp add: digest_0xabc_x base16_40fdf850)
  have "generateSeed ''0xabc'' None = Some (base16 (take 8 (digest_hex (sha256 ''0xabc''))))"
    using generateSeed_is_hash_prefix [of None "''0xabc''"] by blast
  then have b: "generateSeed ''0xabc'' None = Some 3947601545"
    by (simp only: digest_0xabc base16_eb4b9e89)
  from a b show ?thesis by blast
qed

theorem generateSeed_empty_data_witness:
  "generateSeed ''0xabc'' (Some []) = generateSeed ''0xabc'' None
   \<and> generateSeed ''0xabc'' (Some []) = Some 3947601545"
proof -
  have e: "generateSeed ''0xabc'' (Some []) = generateSeed ''0xabc'' None"
    and "generateSeed ''0xabc'' (Some [])
      = Some (base16 (take 8 (digest_hex (sha256 ''0xabc''))))"
    using generateSeed_empty_data [of "''0xabc''"] by blast+
  then have "generateSeed ''0xabc'' (Some []) = Some 3947601545"
    by (simp only: digest_0xabc base16_eb4b9e89)
  with e show ?thesis by blast
qed

end
